theory Spec2Isabelle
  imports Complex_Main "HOL-Library.Sublist"
begin

section \<open>Conventions of the embedding\<close>

text \<open>
  A Python \<^verbatim>\<open>str\<close> is a HOL \<open>string\<close>; each \<open>char\<close> stands for one code point
  below 256 (Latin-1). A Python \<^verbatim>\<open>int\<close> is a \<open>nat\<close> or an \<open>int\<close>. A relevance
  score, a Python \<^verbatim>\<open>float\<close>, is the exact rational it denotes (\<open>rat\<close>): the double
  nearest to \<open>n / 10\<close> is written \<open>n / 10\<close>. A naive \<^verbatim>\<open>datetime\<close> is the number of
  microseconds since 0001-01-01 00:00:00. An exception is a value of \<open>py_exception\<close>
  and a function that can raise returns \<open>py_exception + 'a\<close>, with \<open>Inl\<close> the raise.
\<close>

datatype py_exception =
    ValueError
  | IndexError
  | AttributeError
  | OverflowError
  | OtherException string

type_synonym datetime = int

text \<open>\<^verbatim>\<open>str(n)\<close> of a non-negative integer: its decimal digits, most significant first.\<close>

definition digit_char :: "nat \<Rightarrow> char" where
  "digit_char d = char_of (48 + d)"

fun str_nat :: "nat \<Rightarrow> string" where
  "str_nat n = (if n < 10 then [digit_char n] else str_nat (n div 10) @ [digit_char (n mod 10)])"

declare str_nat.simps [simp del]

section \<open>Domain entities (domain/entities.py)\<close>

datatype NoteType = NURSING | THERAPY | CNA | SOCIAL_WORK | PHYSICIAN

fun NoteType_value :: "NoteType \<Rightarrow> string" where
  "NoteType_value NURSING = ''Nursing''"
| "NoteType_value THERAPY = ''Therapy''"
| "NoteType_value CNA = ''CNA''"
| "NoteType_value SOCIAL_WORK = ''Social Work''"
| "NoteType_value PHYSICIAN = ''Physician''"

record Author =
  name :: string
  title :: string

definition Author_str :: "Author \<Rightarrow> string" where
  "Author_str a = Author.name a @ '', '' @ title a"

record ClinicalNote =
  id' :: string
  resident_id :: string
  content :: string
  note_type :: NoteType
  author :: Author
  created_at :: datetime

record Resident =
  id' :: string
  name :: string
  room_number :: string
  admission_date :: datetime

record QueryResult =
  snippet :: string
  source_note :: ClinicalNote
  relevance_score :: rat

record SearchResults =
  query :: string
  resident :: "Resident option"
  results :: "QueryResult list"
  summary :: string

definition count :: "SearchResults \<Rightarrow> nat" where
  "count s = length (results s)"

text \<open>\<^verbatim>\<open>SearchResults.filter_by_note_type\<close>.\<close>

definition filter_by_note_type :: "SearchResults \<Rightarrow> NoteType \<Rightarrow> SearchResults" where
  "filter_by_note_type self t =
     (let filtered_results = [r \<leftarrow> results self. note_type (source_note r) = t]
      in \<lparr>query = query self,
          resident = resident self,
          results = filtered_results,
          summary = ''Filtered results for '' @ NoteType_value t @ '': '' @
                    str_nat (length filtered_results) @ '' notes found''\<rparr>)"

text \<open>
  The same method as a call in a store of objects. A reference is an index into the store.
  A \<^verbatim>\<open>SearchResults\<close> instance holds its \<^verbatim>\<open>results\<close> list by reference, so that a
  write to the list or to the instance would show in the store. The list comprehension
  allocates a new list and the constructor a new instance; the call returns the new
  store and the reference to the new instance. \<open>None\<close> stands for a dangling reference,
  which no Python state has.
\<close>

type_synonym ref = nat

datatype SearchResults_object =
  SearchResultsObject (object_query: string) (object_resident: "Resident option")
    (object_results: ref) (object_summary: string)

record object_store =
  list_objects :: "QueryResult list list"
  result_objects :: "SearchResults_object list"

text \<open>The object behind a reference.\<close>

definition deref :: "'a list \<Rightarrow> ref \<Rightarrow> 'a option" where
  "deref objects a = (if a < length objects then Some (objects ! a) else None)"

text \<open>The \<^verbatim>\<open>SearchResults\<close> value that the store holds behind a reference: the instance with its list read.\<close>

definition value_of :: "object_store \<Rightarrow> ref \<Rightarrow> SearchResults option" where
  "value_of st a =
     (case deref (result_objects st) a of
        None \<Rightarrow> None
      | Some (SearchResultsObject q res results_ref summ) \<Rightarrow>
          (case deref (list_objects st) results_ref of
             None \<Rightarrow> None
           | Some rs \<Rightarrow> Some \<lparr>query = q, resident = res, results = rs, summary = summ\<rparr>))"

definition filter_by_note_type_call :: "object_store \<Rightarrow> ref \<Rightarrow> NoteType \<Rightarrow> (object_store \<times> ref) option" where
  "filter_by_note_type_call st self t =
     (case deref (result_objects st) self of
        None \<Rightarrow> None
      | Some (SearchResultsObject self_query self_resident self_results_ref self_summary) \<Rightarrow>
          (case deref (list_objects st) self_results_ref of
             None \<Rightarrow> None
           | Some self_results \<Rightarrow>
               (let filtered_results = [r \<leftarrow> self_results. note_type (source_note r) = t];
                    filtered_ref = length (list_objects st);
                    st1 = st\<lparr>list_objects := list_objects st @ [filtered_results]\<rparr>;
                    new_object =
                      SearchResultsObject self_query self_resident filtered_ref
                        (''Filtered results for '' @ NoteType_value t @ '': '' @
                         str_nat (length filtered_results) @ '' notes found'');
                    new_ref = length (result_objects st1)
                in Some (st1\<lparr>result_objects := result_objects st1 @ [new_object]\<rparr>, new_ref))))"

section \<open>The search use case (use_cases/interfaces.py)\<close>

text \<open>
  The collaborators are protocols; each is a record of its methods. A method returns
  \<open>Inr\<close> its value or \<open>Inl\<close> the exception it raises.
\<close>

record ClinicalNoteRepository =
  find_by_resident_id :: "string \<Rightarrow> datetime option \<Rightarrow> py_exception + ClinicalNote list"

record AIQueryProcessor =
  process_query :: "string \<Rightarrow> ClinicalNote list \<Rightarrow> py_exception + QueryResult list"
  generate_summary :: "string \<Rightarrow> QueryResult list \<Rightarrow> py_exception + string"

record SearchClinicalNotesUseCase =
  note_repository :: ClinicalNoteRepository
  ai_processor :: AIQueryProcessor
  lookback_days :: int

text \<open>
  \<^verbatim>\<open>timedelta(days=n)\<close> is a number of microseconds and raises OverflowError when
  \<open>n\<close> has a magnitude above 999999999. \<^verbatim>\<open>datetime - timedelta\<close> raises OverflowError
  when the result leaves the range from 0001-01-01 00:00:00 to 9999-12-31 23:59:59.999999.
\<close>

definition timedelta_days :: "int \<Rightarrow> py_exception + int" where
  "timedelta_days n = (if \<bar>n\<bar> > 999999999 then Inl OverflowError else Inr (n * 86400000000))"

definition datetime_max :: datetime where
  "datetime_max = 3652059 * 86400000000 - 1"

definition datetime_sub :: "datetime \<Rightarrow> int \<Rightarrow> py_exception + datetime" where
  "datetime_sub t delta =
     (if t - delta < 0 \<or> t - delta > datetime_max then Inl OverflowError else Inr (t - delta))"

text \<open>The calls that \<^verbatim>\<open>execute\<close> makes on the AI processor, in the order it makes them.\<close>

datatype ai_call =
    ProcessQueryCall string "ClinicalNote list"
  | GenerateSummaryCall string "QueryResult list"

text \<open>
  \<^verbatim>\<open>SearchClinicalNotesUseCase.execute\<close>, with \<open>now\<close> the value of \<^verbatim>\<open>datetime.now()\<close>.
  It returns the \<^verbatim>\<open>SearchResults\<close> with the calls made on the AI processor.
\<close>

definition execute :: "SearchClinicalNotesUseCase \<Rightarrow> datetime \<Rightarrow> string \<Rightarrow> string \<Rightarrow> py_exception + SearchResults \<times> ai_call list" where
  "execute uc now rid qry =
     (case timedelta_days (lookback_days uc) of
        Inl e \<Rightarrow> Inl e
      | Inr delta \<Rightarrow>
     (case datetime_sub now delta of
        Inl e \<Rightarrow> Inl e
      | Inr since_date \<Rightarrow>
     (case find_by_resident_id (note_repository uc) rid (Some since_date) of
        Inl e \<Rightarrow> Inl e
      | Inr notes \<Rightarrow>
          if notes = []
          then Inr (\<lparr>query = qry, resident = None, results = [],
                     summary = ''No clinical notes found for the specified time period.''\<rparr>, [])
          else
     (case process_query (ai_processor uc) qry notes of
        Inl e \<Rightarrow> Inl e
      | Inr rs \<Rightarrow>
     (case generate_summary (ai_processor uc) qry rs of
        Inl e \<Rightarrow> Inl e
      | Inr summ \<Rightarrow>
          Inr (\<lparr>query = qry, resident = None, results = rs, summary = summ\<rparr>,
               [ProcessQueryCall qry notes, GenerateSummaryCall qry rs]))))))"

section \<open>Python string operations\<close>

text \<open>\<^verbatim>\<open>s.startswith(p)\<close>, and the rest of \<open>s\<close> after the prefix \<open>p\<close> when it starts with it.\<close>

fun startswith :: "string \<Rightarrow> string \<Rightarrow> bool" where
  "startswith s [] = True"
| "startswith [] (p # ps) = False"
| "startswith (c # cs) (p # ps) = (c = p \<and> startswith cs ps)"

fun strip_prefix :: "string \<Rightarrow> string \<Rightarrow> string option" where
  "strip_prefix [] s = Some s"
| "strip_prefix (p # ps) [] = None"
| "strip_prefix (p # ps) (c # cs) = (if p = c then strip_prefix ps cs else None)"

text \<open>\<^verbatim>\<open>sub in s\<close>: \<open>sub\<close> occurs in \<open>s\<close> as a contiguous substring.\<close>

fun contains :: "string \<Rightarrow> string \<Rightarrow> bool" where
  "contains [] sub = (sub = [])"
| "contains (c # cs) sub = (startswith (c # cs) sub \<or> contains cs sub)"

text \<open>
  \<^verbatim>\<open>s.lower()\<close> on code points below 256: the letters A to Z and the Latin-1 capitals
  (0xC0 to 0xDE without the multiplication sign 0xD7) move up by 32.
\<close>

definition lower_char :: "char \<Rightarrow> char" where
  "lower_char c =
     (let n = (of_char c :: nat)
      in if (65 \<le> n \<and> n \<le> 90) \<or> (192 \<le> n \<and> n \<le> 214) \<or> (216 \<le> n \<and> n \<le> 222)
         then char_of (n + 32) else c)"

definition lower :: "string \<Rightarrow> string" where
  "lower s = map lower_char s"

text \<open>
  \<^verbatim>\<open>s.split(sep)\<close> for a non-empty separator: the fields between the occurrences of
  \<open>sep\<close>, found from left to right without overlap. (Python raises ValueError on an
  empty separator; the only separator of this program is the literal \<^verbatim>\<open>SNIPPET:\<close>.)
\<close>

function split_str :: "string \<Rightarrow> string \<Rightarrow> string list" where
  "split_str sep [] = [[]]"
| "split_str sep (c # cs) =
     (if sep \<noteq> [] \<and> startswith (c # cs) sep
      then [] # split_str sep (drop (length sep) (c # cs))
      else (case split_str sep cs of
              [] \<Rightarrow> [[c]]
            | x # xs \<Rightarrow> (c # x) # xs))"
  by pat_completeness auto
termination
  by (relation "measure (\<lambda>(sep, s). length s)") auto

section \<open>The regular expressions of the reply parser\<close>

text \<open>
  \<^verbatim>\<open>re.search(p, s)\<close> tries the pattern at each start position of \<open>s\<close> from left
  to right (the end of the string included) and returns the first match. \<open>m\<close> matches
  the pattern at the start of its argument and returns the captured group.
\<close>

fun re_search :: "(string \<Rightarrow> 'a option) \<Rightarrow> string \<Rightarrow> 'a option" where
  "re_search m [] = m []"
| "re_search m (c # cs) =
     (case m (c # cs) of
        Some g \<Rightarrow> Some g
      | None \<Rightarrow> re_search m cs)"

text \<open>The character classes \<^verbatim>\<open>\d\<close> and \<^verbatim>\<open>\s\<close> of a \<^verbatim>\<open>str\<close> pattern, on code points below 256.\<close>

definition is_digit :: "char \<Rightarrow> bool" where
  "is_digit c = (let n = (of_char c :: nat) in 48 \<le> n \<and> n \<le> 57)"

definition is_space :: "char \<Rightarrow> bool" where
  "is_space c =
     (let n = (of_char c :: nat)
      in (9 \<le> n \<and> n \<le> 13) \<or> (28 \<le> n \<and> n \<le> 32) \<or> n = 133 \<or> n = 160)"

definition dquote :: char where
  "dquote = CHR 0x22"

text \<open>
  The pattern \<^verbatim>\<open>"([^"]+)"\<close> at the start of \<open>s\<close>: a double quote, the longest run of
  characters other than a double quote, which must not be empty, and a double quote.
  The greedy run gives nothing back: a shorter run is followed by a character that is
  not a double quote.
\<close>

fun match_quoted :: "string \<Rightarrow> string option" where
  "match_quoted [] = None"
| "match_quoted (c # cs) =
     (if c = dquote
      then (let body = takeWhile (\<lambda>x. x \<noteq> dquote) cs;
                rest = dropWhile (\<lambda>x. x \<noteq> dquote) cs
            in if body \<noteq> [] \<and> rest \<noteq> [] then Some body else None)
      else None)"

text \<open>
  The pattern \<^verbatim>\<open>LABEL\s*PREFIX(\d+)\<close> at the start of \<open>s\<close>: the label, the longest run
  of whitespace, the prefix, and the longest run of digits, which must not be empty.
  Neither greedy run gives anything back: the prefix does not start with whitespace, and
  nothing follows the digits in the pattern.
\<close>

definition match_labelled_digits :: "string \<Rightarrow> string \<Rightarrow> string \<Rightarrow> string option" where
  "match_labelled_digits label pre s =
     (case strip_prefix label s of
        None \<Rightarrow> None
      | Some r1 \<Rightarrow>
          (case strip_prefix pre (dropWhile is_space r1) of
             None \<Rightarrow> None
           | Some r2 \<Rightarrow>
               (let ds = takeWhile is_digit r2 in if ds = [] then None else Some ds)))"

text \<open>\<^verbatim>\<open>re.search(r'"([^"]+)"', section)\<close> and \<^verbatim>\<open>.group(1)\<close>.\<close>

definition search_snippet :: "string \<Rightarrow> string option" where
  "search_snippet sec = re_search match_quoted sec"

text \<open>\<^verbatim>\<open>re.search(r'NOTE_ID:\s*NOTE_(\d+)', section)\<close> and \<^verbatim>\<open>.group(1)\<close>.\<close>

definition search_note_id :: "string \<Rightarrow> string option" where
  "search_note_id sec = re_search (match_labelled_digits ''NOTE_ID:'' ''NOTE_'') sec"

text \<open>\<^verbatim>\<open>re.search(r'RELEVANCE:\s*(\d+)', section)\<close> and \<^verbatim>\<open>.group(1)\<close>.\<close>

definition search_relevance :: "string \<Rightarrow> string option" where
  "search_relevance sec = re_search (match_labelled_digits ''RELEVANCE:'' []) sec"

text \<open>The value of a string of decimal digits.\<close>

definition digit_value :: "char \<Rightarrow> nat" where
  "digit_value c = of_char c - 48"

definition digits_value :: "string \<Rightarrow> nat" where
  "digits_value ds = foldl (\<lambda>acc c. 10 * acc + digit_value c) 0 ds"

text \<open>
  \<^verbatim>\<open>int(ds)\<close> on a string of decimal digits. CPython refuses a string of more than
  4300 digits with ValueError (the default of \<^verbatim>\<open>sys.get_int_max_str_digits()\<close>).
\<close>

definition int_max_str_digits :: nat where
  "int_max_str_digits = 4300"

definition py_int :: "string \<Rightarrow> py_exception + nat" where
  "py_int ds = (if length ds > int_max_str_digits then Inl ValueError else Inr (digits_value ds))"

text \<open>\<^verbatim>\<open>float(ds)\<close> on a string of decimal digits; the conversion to float has no digit limit.\<close>

definition py_float :: "string \<Rightarrow> rat" where
  "py_float ds = of_nat (digits_value ds)"

section \<open>The reply parser (infrastructure/gemini_service.py)\<close>

text \<open>
  The body of the \<^verbatim>\<open>try\<close> block of the loop of \<^verbatim>\<open>_parse_search_response\<close>, for one
  section: \<open>Inr None\<close> is a \<^verbatim>\<open>continue\<close>, \<open>Inr (Some r)\<close> is the result appended,
  \<open>Inl e\<close> is an exception raised inside the block.
\<close>

definition parse_section :: "string \<Rightarrow> ClinicalNote list \<Rightarrow> py_exception + QueryResult option" where
  "parse_section sec clinical_notes =
     (case search_snippet sec of
        None \<Rightarrow> Inr None
      | Some snip \<Rightarrow>
          (case search_note_id sec of
             None \<Rightarrow> Inr None
           | Some ds \<Rightarrow>
               (case py_int ds of
                  Inl e \<Rightarrow> Inl e
                | Inr note_index \<Rightarrow>
                    (let score = (case search_relevance sec of
                                    Some rs \<Rightarrow> py_float rs / 10
                                  | None \<Rightarrow> 1 / 2)
                     in if note_index \<ge> length clinical_notes then Inr None
                        else Inr (Some \<lparr>snippet = snip,
                                        source_note = clinical_notes ! note_index,
                                        relevance_score = score\<rparr>)))))"

text \<open>The exceptions the \<^verbatim>\<open>except (ValueError, IndexError, AttributeError)\<close> clause catches.\<close>

fun caught_in_loop :: "py_exception \<Rightarrow> bool" where
  "caught_in_loop ValueError = True"
| "caught_in_loop IndexError = True"
| "caught_in_loop AttributeError = True"
| "caught_in_loop e = False"

text \<open>
  The \<^verbatim>\<open>for\<close> loop over the sections, with the list \<open>acc\<close> of results appended so
  far. A caught exception skips the section; any other exception leaves the loop.
\<close>

fun collect_results :: "string list \<Rightarrow> ClinicalNote list \<Rightarrow> QueryResult list \<Rightarrow> py_exception + QueryResult list" where
  "collect_results [] clinical_notes acc = Inr acc"
| "collect_results (sec # secs) clinical_notes acc =
     (case parse_section sec clinical_notes of
        Inr None \<Rightarrow> collect_results secs clinical_notes acc
      | Inr (Some r) \<Rightarrow> collect_results secs clinical_notes (acc @ [r])
      | Inl e \<Rightarrow> (if caught_in_loop e then collect_results secs clinical_notes acc else Inl e))"

text \<open>
  The results that one section contributes to the list: the result appended, or nothing
  when the section is skipped.
\<close>

definition section_results :: "string \<Rightarrow> ClinicalNote list \<Rightarrow> QueryResult list" where
  "section_results sec clinical_notes =
     (case parse_section sec clinical_notes of
        Inr (Some r) \<Rightarrow> [r]
      | _ \<Rightarrow> [])"

text \<open>
  \<^verbatim>\<open>results.sort(key=..., reverse=True)\<close>: CPython reverses the list, sorts it with a
  stable ascending sort and reverses the result, which keeps the sort stable.
\<close>

definition sort_reverse :: "('a \<Rightarrow> 'k::linorder) \<Rightarrow> 'a list \<Rightarrow> 'a list" where
  "sort_reverse key xs = rev (sort_key key (rev xs))"

text \<open>\<^verbatim>\<open>sections[1:]\<close> of the split reply: the text before the first token is dropped.\<close>

definition sections_of :: "string \<Rightarrow> string list" where
  "sections_of response_text = tl (split_str ''SNIPPET:'' response_text)"

text \<open>The loop and the sort of \<^verbatim>\<open>_parse_search_response\<close>, on the list of sections.\<close>

definition parse_sections :: "string list \<Rightarrow> ClinicalNote list \<Rightarrow> py_exception + QueryResult list" where
  "parse_sections secs clinical_notes =
     (case collect_results secs clinical_notes [] of
        Inl e \<Rightarrow> Inl e
      | Inr rs \<Rightarrow> Inr (sort_reverse relevance_score rs))"

definition parse_search_response :: "string \<Rightarrow> ClinicalNote list \<Rightarrow> py_exception + QueryResult list" where
  "parse_search_response response_text clinical_notes =
     parse_sections (sections_of response_text) clinical_notes"

section \<open>The prompt and the round trip (infrastructure/gemini_service.py)\<close>

text \<open>\<^verbatim>\<open>sep.join(parts)\<close>.\<close>

fun join :: "string \<Rightarrow> string list \<Rightarrow> string" where
  "join sep [] = []"
| "join sep [x] = x"
| "join sep (x # y # ys) = x @ sep @ join sep (y # ys)"

text \<open>
  \<^verbatim>\<open>_prepare_context\<close>. The formatting of a date by the C library is the parameter
  \<open>strftime\<close>, which takes the date and the format.
\<close>

definition prepare_context :: "(datetime \<Rightarrow> string \<Rightarrow> string) \<Rightarrow> ClinicalNote list \<Rightarrow> string" where
  "prepare_context strftime clinical_notes =
     join ''\<newline>''
       (map (\<lambda>(i, note).
               ''NOTE_'' @ str_nat i @ '':\<newline>'' @
               ''Type: '' @ NoteType_value (note_type note) @ ''\<newline>'' @
               ''Author: '' @ Author_str (author note) @ ''\<newline>'' @
               ''Date: '' @ strftime (created_at note) ''%m/%d/%Y %H:%M'' @ ''\<newline>'' @
               ''Content: '' @ content note @ ''\<newline>'' @
               ''---'')
            (enumerate 0 clinical_notes))"

text \<open>\<^verbatim>\<open>_create_search_prompt\<close>.\<close>

definition create_search_prompt :: \<open>string \<Rightarrow> string \<Rightarrow> string\<close> where
  \<open>create_search_prompt qry ctx =
     ''\<newline>'' @
     ''You are an expert MDS coordinator assistant. Your task is to find relevant clinical evidence from nursing home documentation.\<newline>'' @
     ''\<newline>'' @
     ''QUERY: '' @
     qry @
     ''\<newline>'' @
     ''\<newline>'' @
     ''CLINICAL NOTES:\<newline>'' @
     ctx @
     ''\<newline>'' @
     ''\<newline>'' @
     ''Instructions:\<newline>'' @
     ''1. Find direct quotes from the clinical notes that are relevant to the query\<newline>'' @
     ''2. Return ONLY the most relevant sentences or phrases (not entire paragraphs)\<newline>'' @
     ''3. Include the NOTE_X identifier for each relevant snippet\<newline>'' @
     ''4. Format your response as:\<newline>'' @
     ''   SNIPPET: "exact quote from note"\<newline>'' @
     ''   NOTE_ID: NOTE_X\<newline>'' @
     ''   RELEVANCE: score from 1-10\<newline>'' @
     ''   \<newline>'' @
     ''5. Return up to 5 most relevant snippets\<newline>'' @
     ''6. Only include snippets that directly answer or relate to the query\<newline>'' @
     ''\<newline>'' @
     ''Response format:\<newline>'' @
     ''SNIPPET: "quote here"\<newline>'' @
     ''NOTE_ID: NOTE_0\<newline>'' @
     ''RELEVANCE: 8\<newline>'' @
     ''\<newline>'' @
     ''SNIPPET: "another quote"\<newline>'' @
     ''NOTE_ID: NOTE_2  \<newline>'' @
     ''RELEVANCE: 7\<newline>''\<close>

text \<open>
  \<^verbatim>\<open>GeminiQueryProcessor.process_query\<close>. \<open>generate_content\<close> is the round trip to
  the generation service, \<^verbatim>\<open>self.model.generate_content(prompt)\<close> followed by the
  read of \<^verbatim>\<open>response.text\<close>: it returns the reply text or the exception either of
  them raises (a subclass of \<^verbatim>\<open>Exception\<close>). The inner \<open>case\<close> is the body of the
  \<^verbatim>\<open>try\<close> block, the outer one the \<^verbatim>\<open>except Exception\<close> clause; the message it
  prints is not modelled.
\<close>

definition process_query :: "(datetime \<Rightarrow> string \<Rightarrow> string) \<Rightarrow> (string \<Rightarrow> py_exception + string) \<Rightarrow> string \<Rightarrow> ClinicalNote list \<Rightarrow> py_exception + QueryResult list" where
  "process_query strftime generate_content qry clinical_notes =
     (let ctx = prepare_context strftime clinical_notes;
          prompt = create_search_prompt qry ctx
      in case (case generate_content prompt of
                 Inl e \<Rightarrow> Inl e
               | Inr response_text \<Rightarrow> parse_search_response response_text clinical_notes) of
           Inl e \<Rightarrow> Inr []
         | Inr rs \<Rightarrow> Inr rs)"

section \<open>The summary heuristic (infrastructure/gemini_service.py)\<close>

text \<open>The dictionary \<^verbatim>\<open>evidence_mapping\<close>, in its insertion order, which is the order of iteration.\<close>

definition evidence_mapping :: "(string \<times> string) list" where
  "evidence_mapping =
     [(''depression'', ''symptoms of depression''),
      (''mood'', ''mood-related symptoms''),
      (''fall'', ''fall risk or incidents''),
      (''assist'', ''assistance requirements''),
      (''transfer'', ''transfer assistance needs''),
      (''cognitive'', ''cognitive impairment''),
      (''behavior'', ''behavioral symptoms''),
      (''pain'', ''pain indicators''),
      (''medication'', ''medication-related issues'')]"

text \<open>The \<^verbatim>\<open>for\<close> loop of \<^verbatim>\<open>_extract_evidence_type\<close> over the items of the dictionary.\<close>

fun first_keyword_in :: "(string \<times> string) list \<Rightarrow> string \<Rightarrow> string option" where
  "first_keyword_in [] query_lower = None"
| "first_keyword_in ((keyword, description) # items) query_lower =
     (if contains query_lower keyword then Some description
      else first_keyword_in items query_lower)"

definition extract_evidence_type :: "string \<Rightarrow> string option" where
  "extract_evidence_type qry = (let query_lower = lower qry in first_keyword_in evidence_mapping query_lower)"

text \<open>
  \<^verbatim>\<open>GeminiQueryProcessor.generate_summary\<close>. \<^verbatim>\<open>if evidence_type:\<close> is false on
  \<^verbatim>\<open>None\<close> and on the empty string.
\<close>

definition generate_summary :: "string \<Rightarrow> QueryResult list \<Rightarrow> string" where
  "generate_summary qry rs =
     (if rs = [] then ''No relevant clinical evidence found for your query.''
      else (let cnt = length rs;
                evidence_type = extract_evidence_type qry
            in case evidence_type of
                 Some d \<Rightarrow>
                   if d \<noteq> [] then ''I found '' @ str_nat cnt @ '' notes that may indicate '' @ d @ '':''
                   else ''I found '' @ str_nat cnt @ '' relevant notes for your query:''
               | None \<Rightarrow> ''I found '' @ str_nat cnt @ '' relevant notes for your query:''))"

section \<open>Concrete inputs\<close>

definition example_note :: ClinicalNote where
  "example_note =
     \<lparr>ClinicalNote.id' = ''NOTE_001'', resident_id = ''RES001'',
      content = ''Resident appears sad and withdrawn'', note_type = NURSING,
      author = \<lparr>Author.name = ''Test Nurse'', title = ''RN''\<rparr>,
      created_at = 63900000000000000\<rparr>"

text \<open>A use case on an empty note store, with an AI processor that raises on every call.\<close>

definition empty_store_use_case :: SearchClinicalNotesUseCase where
  "empty_store_use_case =
     \<lparr>note_repository = \<lparr>find_by_resident_id = (\<lambda>rid since. Inr [])\<rparr>,
      ai_processor =
        \<lparr>AIQueryProcessor.process_query = (\<lambda>qry notes. Inl (OtherException ''called'')),
         AIQueryProcessor.generate_summary = (\<lambda>qry rs. Inl (OtherException ''called''))\<rparr>,
      lookback_days = 14\<rparr>"

text \<open>Replies of the generation service.\<close>

definition six_snippet_reply :: string where
  \<open>six_snippet_reply =
     ''SNIPPET: "a" NOTE_ID: NOTE_0 RELEVANCE: 9 '' @
     ''SNIPPET: "b" NOTE_ID: NOTE_0 RELEVANCE: 8 '' @
     ''SNIPPET: "c" NOTE_ID: NOTE_0 RELEVANCE: 7 '' @
     ''SNIPPET: "d" NOTE_ID: NOTE_0 RELEVANCE: 6 '' @
     ''SNIPPET: "e" NOTE_ID: NOTE_0 RELEVANCE: 5 '' @
     ''SNIPPET: "f" NOTE_ID: NOTE_0 RELEVANCE: 4 ''\<close>

definition tied_reply :: string where
  \<open>tied_reply =
     ''SNIPPET: "a" NOTE_ID: NOTE_0 RELEVANCE: 7 '' @
     ''SNIPPET: "b" NOTE_ID: NOTE_0 RELEVANCE: 9 '' @
     ''SNIPPET: "c" NOTE_ID: NOTE_0 RELEVANCE: 7 ''\<close>

definition scenario_reply :: string where
  \<open>scenario_reply = ''SNIPPET: "resident fell twice" NOTE_ID: NOTE_0 RELEVANCE: 9''\<close>

definition scenario_section :: string where
  \<open>scenario_section = '' "resident fell twice" NOTE_ID: NOTE_0 RELEVANCE: 9''\<close>

definition overrated_reply :: string where
  \<open>overrated_reply = ''SNIPPET: "x" NOTE_ID: NOTE_0 RELEVANCE: 15''\<close>



definition second_note :: ClinicalNote where
  "second_note =
     \<lparr>ClinicalNote.id' = ''NOTE_002'', resident_id = ''RES001'',
      content = ''Required two-person assist for transfer'', note_type = NURSING,
      author = \<lparr>Author.name = ''Test Nurse'', title = ''RN''\<rparr>,
      created_at = 63900086400000000\<rparr>"

definition out_of_range_reply :: string where
  \<open>out_of_range_reply =
     ''SNIPPET: "a" NOTE_ID: NOTE_0 RELEVANCE: 8 '' @
     ''SNIPPET: "b" NOTE_ID: NOTE_5 RELEVANCE: 9 '' @
     ''SNIPPET: "c" NOTE_ID: NOTE_1 RELEVANCE: 7''\<close>

definition second_note_reply :: string where
  \<open>second_note_reply = ''SNIPPET: "c" NOTE_ID: NOTE_1 RELEVANCE: 7''\<close>

definition second_note_result :: QueryResult where
  "second_note_result = \<lparr>snippet = ''c'', source_note = second_note, relevance_score = 7 / 10\<rparr>"

definition therapy_note :: ClinicalNote where
  "therapy_note =
     \<lparr>ClinicalNote.id' = ''NOTE_003'', resident_id = ''RES001'',
      content = ''Gait training with walker'', note_type = THERAPY,
      author = \<lparr>Author.name = ''Test Therapist'', title = ''PT''\<rparr>,
      created_at = 63900090000000000\<rparr>"

definition mixed_results :: "QueryResult list" where
  "mixed_results =
     [\<lparr>snippet = ''a'', source_note = example_note, relevance_score = 9 / 10\<rparr>,
      \<lparr>snippet = ''b'', source_note = therapy_note, relevance_score = 8 / 10\<rparr>,
      \<lparr>snippet = ''c'', source_note = second_note, relevance_score = 7 / 10\<rparr>]"

definition mixed_search_results :: SearchResults where
  "mixed_search_results =
     \<lparr>query = ''find falls'', resident = None, results = mixed_results,
      summary = ''I found 3 notes that may indicate fall risk or incidents:''\<rparr>"

definition mixed_store :: object_store where
  "mixed_store =
     \<lparr>list_objects = [mixed_results],
      result_objects =
        [SearchResultsObject ''find falls'' None 0
           ''I found 3 notes that may indicate fall risk or incidents:'']\<rparr>"

definition filtered_store :: object_store where
  "filtered_store =
     \<lparr>list_objects =
        [mixed_results,
         [\<lparr>snippet = ''a'', source_note = example_note, relevance_score = 9 / 10\<rparr>,
          \<lparr>snippet = ''c'', source_note = second_note, relevance_score = 7 / 10\<rparr>]],
      result_objects =
        [SearchResultsObject ''find falls'' None 0
           ''I found 3 notes that may indicate fall risk or incidents:'',
         SearchResultsObject ''find falls'' None 1
           ''Filtered results for Nursing: 2 notes found'']\<rparr>"

section \<open>Properties of the string operations\<close>

lemma startswith_iff: "startswith s p \<longleftrightarrow> prefix p s"
  by (induction s p rule: startswith.induct) auto

lemma contains_iff_sublist: "contains s sub \<longleftrightarrow> sublist sub s"
proof (induction s)
  case Nil
  show ?case by auto
next
  case (Cons c cs)
  show ?case
    by (simp add: Cons.IH startswith_iff sublist_Cons_right)
qed

lemma strip_prefix_Some: "strip_prefix p s = Some r \<longleftrightarrow> s = p @ r"
  by (induction p s rule: strip_prefix.induct) auto

lemma re_search_Some:
  "re_search m s = Some g \<Longrightarrow> \<exists>pre t. s = pre @ t \<and> m t = Some g"
proof (induction s)
  case Nil
  then show ?case by simp
next
  case (Cons c cs)
  show ?case
  proof (cases "m (c # cs)")
    case None
    with Cons.prems have "re_search m cs = Some g" by simp
    then obtain pre t where "cs = pre @ t" "m t = Some g" using Cons.IH by blast
    then have "c # cs = (c # pre) @ t \<and> m t = Some g" by simp
    then show ?thesis by blast
  next
    case (Some g')
    with Cons.prems have "c # cs = [] @ (c # cs) \<and> m (c # cs) = Some g" by simp
    then show ?thesis by blast
  qed
qed

lemma match_quoted_Some:
  "match_quoted t = Some b \<longleftrightarrow>
     (\<exists>rest. t = dquote # b @ dquote # rest \<and> b \<noteq> [] \<and> dquote \<notin> set b)"
proof (cases t)
  case Nil
  then show ?thesis by simp
next
  case (Cons c cs)
  show ?thesis
  proof
    assume m: "match_quoted t = Some b"
    with Cons have c: "c = dquote" and b: "b = takeWhile (\<lambda>x. x \<noteq> dquote) cs"
      and ne: "b \<noteq> []" and r: "dropWhile (\<lambda>x. x \<noteq> dquote) cs \<noteq> []"
      by (auto simp: Let_def split: if_splits)
    from r have "hd (dropWhile (\<lambda>x. x \<noteq> dquote) cs) = dquote"
      using hd_dropWhile [of "\<lambda>x. x \<noteq> dquote" cs] by simp
    with r obtain rest where rest: "dropWhile (\<lambda>x. x \<noteq> dquote) cs = dquote # rest"
      by (cases "dropWhile (\<lambda>x. x \<noteq> dquote) cs") auto
    have "cs = b @ dquote # rest"
      using takeWhile_dropWhile_id [of "\<lambda>x. x \<noteq> dquote" cs] b rest by simp
    moreover have "dquote \<notin> set b"
      using b set_takeWhileD by fastforce
    ultimately show "\<exists>rest. t = dquote # b @ dquote # rest \<and> b \<noteq> [] \<and> dquote \<notin> set b"
      using Cons c ne by blast
  next
    assume "\<exists>rest. t = dquote # b @ dquote # rest \<and> b \<noteq> [] \<and> dquote \<notin> set b"
    then obtain rest where t: "t = dquote # b @ dquote # rest" and ne: "b \<noteq> []"
      and nq: "dquote \<notin> set b" by blast
    have tw: "takeWhile (\<lambda>x. x \<noteq> dquote) (b @ dquote # rest) = b"
      using nq by (subst takeWhile_append2) auto
    have dw: "dropWhile (\<lambda>x. x \<noteq> dquote) (b @ dquote # rest) = dquote # rest"
      using nq by (subst dropWhile_append2) auto
    show "match_quoted t = Some b"
      using t ne tw dw by simp
  qed
qed

lemma split_str_nonempty: "split_str sep s \<noteq> []"
  by (induction sep s rule: split_str.induct) (auto split: list.splits)

lemma split_str_hd_prefix: "split_str sep s = y # ys \<Longrightarrow> prefix y s"
proof (induction sep s arbitrary: y ys rule: split_str.induct)
  case (1 sep)
  then show ?case by simp
next
  case (2 sep c cs)
  show ?case
  proof (cases "sep \<noteq> [] \<and> startswith (c # cs) sep")
    case True
    with "2.prems" show ?thesis by auto
  next
    case False
    obtain z zs where zs: "split_str sep cs = z # zs"
      using split_str_nonempty by (cases "split_str sep cs") auto
    with False "2.prems" have y: "y = c # z" by auto
    have "prefix z cs" using "2.IH"(2) False zs by blast
    with y show ?thesis by simp
  qed
qed

lemma split_str_sublist: "x \<in> set (split_str sep s) \<Longrightarrow> sublist x s"
proof (induction sep s arbitrary: x rule: split_str.induct)
  case (1 sep)
  then show ?case by simp
next
  case (2 sep c cs)
  show ?case
  proof (cases "sep \<noteq> [] \<and> startswith (c # cs) sep")
    case True
    with "2.prems" have "x = [] \<or> x \<in> set (split_str sep (drop (length sep) (c # cs)))"
      by auto
    then show ?thesis
    proof
      assume "x = []" then show ?thesis by simp
    next
      assume "x \<in> set (split_str sep (drop (length sep) (c # cs)))"
      then have "sublist x (drop (length sep) (c # cs))" using "2.IH"(1) True by blast
      then show ?thesis
        by (meson sublist_drop sublist_order.order_trans)
    qed
  next
    case False
    obtain y ys where ys: "split_str sep cs = y # ys"
      using split_str_nonempty by (cases "split_str sep cs") auto
    with False "2.prems" have "x = c # y \<or> x \<in> set ys" by auto
    then show ?thesis
    proof
      assume x: "x = c # y"
      have "y \<in> set (split_str sep cs)" using ys by simp
      have "prefix y cs" using ys by (rule split_str_hd_prefix)
      then show ?thesis using x by (simp add: sublist_Cons_right)
    next
      assume "x \<in> set ys"
      then have "x \<in> set (split_str sep cs)" using ys by simp
      then have "sublist x cs" using "2.IH"(2) False by blast
      then show ?thesis by (simp add: sublist_Cons_right)
    qed
  qed
qed

text \<open>
  What the searches find. A search returns nothing exactly when the pattern matches at
  no position; the snippet pattern matches a quoted, non-empty run without a double
  quote; a match of a labelled pattern is an occurrence of the label, whitespace, the
  prefix and digits in the section. Splitting loses nothing: joining the fields with the
  separator gives the text back.
\<close>

lemma re_search_None_iff:
  "re_search m s = None \<longleftrightarrow> (\<forall>pre t. s = pre @ t \<longrightarrow> m t = None)"
proof (induction s)
  case Nil
  show ?case by simp
next
  case (Cons c cs)
  show ?case
  proof
    assume n: "re_search m (c # cs) = None"
    then have h: "m (c # cs) = None" and r: "re_search m cs = None"
      by (simp_all split: option.splits)
    show "\<forall>pre t. c # cs = pre @ t \<longrightarrow> m t = None"
    proof (intro allI impI)
      fix pre t assume e: "c # cs = pre @ t"
      show "m t = None"
      proof (cases pre)
        case Nil
        with e h show ?thesis by simp
      next
        case (Cons p ps)
        with e have "cs = ps @ t" by simp
        with r Cons.IH show ?thesis by simp
      qed
    qed
  next
    assume a: "\<forall>pre t. c # cs = pre @ t \<longrightarrow> m t = None"
    then have h: "m (c # cs) = None" by simp
    have "\<forall>pre t. cs = pre @ t \<longrightarrow> m t = None"
    proof (intro allI impI)
      fix pre t assume "cs = pre @ t"
      then have "c # cs = (c # pre) @ t" by simp
      with a show "m t = None" by blast
    qed
    then have "re_search m cs = None" using Cons.IH by simp
    with h show "re_search m (c # cs) = None" by simp
  qed
qed

lemma search_snippet_None_iff:
  "search_snippet sec = None \<longleftrightarrow>
     \<not> (\<exists>pre b rest. sec = pre @ dquote # b @ dquote # rest \<and> b \<noteq> [] \<and> dquote \<notin> set b)"
proof
  assume n: "search_snippet sec = None"
  show "\<not> (\<exists>pre b rest. sec = pre @ dquote # b @ dquote # rest \<and> b \<noteq> [] \<and> dquote \<notin> set b)"
  proof
    assume "\<exists>pre b rest. sec = pre @ dquote # b @ dquote # rest \<and> b \<noteq> [] \<and> dquote \<notin> set b"
    then obtain pre b rest where s: "sec = pre @ dquote # b @ dquote # rest"
      and b: "b \<noteq> []" "dquote \<notin> set b" by auto
    from b have "match_quoted (dquote # b @ dquote # rest) = Some b"
      unfolding match_quoted_Some by auto
    moreover from n have "\<forall>pre t. sec = pre @ t \<longrightarrow> match_quoted t = None"
      unfolding search_snippet_def re_search_None_iff .
    then have "match_quoted (dquote # b @ dquote # rest) = None"
      using s by blast
    ultimately show False by simp
  qed
next
  assume a: "\<not> (\<exists>pre b rest. sec = pre @ dquote # b @ dquote # rest \<and> b \<noteq> [] \<and> dquote \<notin> set b)"
  show "search_snippet sec = None"
  proof (rule ccontr)
    assume "search_snippet sec \<noteq> None"
    then obtain b where "re_search match_quoted sec = Some b"
      unfolding search_snippet_def by auto
    from re_search_Some [OF this] obtain pre t where s: "sec = pre @ t"
      and m: "match_quoted t = Some b" by auto
    from m [unfolded match_quoted_Some] obtain rest where
      "t = dquote # b @ dquote # rest" "b \<noteq> []" "dquote \<notin> set b" by auto
    with s a show False by auto
  qed
qed

lemma match_labelled_digits_Some:
  assumes "match_labelled_digits label pre s = Some ds"
  shows "\<exists>ws rest. s = label @ ws @ pre @ ds @ rest \<and> (\<forall>c \<in> set ws. is_space c) \<and>
                   ds \<noteq> [] \<and> (\<forall>c \<in> set ds. is_digit c)"
proof -
  from assms obtain r1 where r1: "strip_prefix label s = Some r1"
    by (cases "strip_prefix label s") (simp_all add: match_labelled_digits_def)
  from assms r1 obtain r2 where r2: "strip_prefix pre (dropWhile is_space r1) = Some r2"
    by (cases "strip_prefix pre (dropWhile is_space r1)") (simp_all add: match_labelled_digits_def)
  from assms r1 r2 have ds: "ds = takeWhile is_digit r2" and ne: "ds \<noteq> []"
    by (auto simp: match_labelled_digits_def Let_def split: if_splits)
  have s: "s = label @ r1" using r1 by (simp add: strip_prefix_Some)
  have d: "dropWhile is_space r1 = pre @ r2" using r2 by (simp add: strip_prefix_Some)
  have "r1 = takeWhile is_space r1 @ dropWhile is_space r1" by simp
  with d have r1': "r1 = takeWhile is_space r1 @ pre @ r2" by simp
  have "r2 = ds @ dropWhile is_digit r2" using ds by simp
  with s r1' have "s = label @ takeWhile is_space r1 @ pre @ ds @ dropWhile is_digit r2"
    by simp
  moreover have "\<forall>c \<in> set (takeWhile is_space r1). is_space c"
    by (auto dest: set_takeWhileD)
  moreover have "\<forall>c \<in> set ds. is_digit c"
    using ds by (auto dest: set_takeWhileD)
  ultimately show ?thesis using ne by (intro exI conjI)
qed


lemma search_labelled_digits_Some:
  assumes "re_search (match_labelled_digits label pre) sec = Some ds"
  shows "\<exists>before ws rest. sec = before @ label @ ws @ pre @ ds @ rest \<and>
           (\<forall>c \<in> set ws. is_space c) \<and> ds \<noteq> [] \<and> (\<forall>c \<in> set ds. is_digit c)"
proof -
  from re_search_Some [OF assms] obtain before t where s: "sec = before @ t"
    and m: "match_labelled_digits label pre t = Some ds" by auto
  from match_labelled_digits_Some [OF m] obtain ws rest where
    t: "t = label @ ws @ pre @ ds @ rest" and w: "\<forall>c \<in> set ws. is_space c"
    and d: "ds \<noteq> []" "\<forall>c \<in> set ds. is_digit c" by auto
  from s t have "sec = before @ label @ ws @ pre @ ds @ rest" by simp
  with w d show ?thesis by (intro exI conjI)
qed

lemma join_Cons: "xs \<noteq> [] \<Longrightarrow> join sep (x # xs) = x @ sep @ join sep xs"
  by (cases xs) simp_all

lemma join_Cons_Cons: "join sep ((c # x) # xs) = c # join sep (x # xs)"
  by (cases xs) simp_all

lemma join_split_str:
  assumes "sep \<noteq> []"
  shows "join sep (split_str sep s) = s"
  using assms
proof (induction sep s rule: split_str.induct)
  case (1 sep)
  show ?case by simp
next
  case (2 sep c cs)
  show ?case
  proof (cases "startswith (c # cs) sep")
    case True
    then have "prefix sep (c # cs)" by (simp add: startswith_iff)
    then have e: "sep @ drop (length sep) (c # cs) = c # cs"
      by (metis append_eq_conv_conj prefix_def)
    have "join sep (split_str sep (drop (length sep) (c # cs))) = drop (length sep) (c # cs)"
      using "2.IH"(1) "2.prems" True by simp
    then have "join sep ([] # split_str sep (drop (length sep) (c # cs))) = c # cs"
      using e by (simp add: join_Cons split_str_nonempty)
    with True "2.prems" show ?thesis by simp
  next
    case False
    obtain y ys where ys: "split_str sep cs = y # ys"
      using split_str_nonempty by (cases "split_str sep cs") auto
    have "join sep (split_str sep cs) = cs"
      using "2.IH"(2) "2.prems" False by simp
    with ys have "join sep ((c # y) # ys) = c # cs"
      by (simp add: join_Cons_Cons)
    with False ys show ?thesis by simp
  qed
qed

section \<open>Properties of the loop and of the sort\<close>

lemma parse_section_raises: "parse_section sec ns = Inl e \<Longrightarrow> e = ValueError"
  by (auto simp: parse_section_def py_int_def Let_def split: option.splits sum.splits if_splits)

lemma collect_results_eq:
  "collect_results secs ns acc = Inr (acc @ concat (map (\<lambda>s. section_results s ns) secs))"
proof (induction secs arbitrary: acc)
  case Nil
  show ?case by simp
next
  case (Cons sec secs)
  show ?case
  proof (cases "parse_section sec ns")
    case (Inl e)
    then have "e = ValueError" by (rule parse_section_raises)
    with Inl Cons show ?thesis by (simp add: section_results_def)
  next
    case (Inr ro)
    with Cons show ?thesis by (cases ro) (simp_all add: section_results_def)
  qed
qed

lemma parse_sections_eq:
  "parse_sections secs ns = Inr (sort_reverse relevance_score (concat (map (\<lambda>s. section_results s ns) secs)))"
  by (simp add: parse_sections_def collect_results_eq)

lemma sort_reverse_descending:
  "sorted_wrt (\<lambda>x y. key y \<le> key x) (sort_reverse key xs)"
proof -
  have "sorted (map key (sort_key key (rev xs)))" by simp
  then have "sorted_wrt (\<lambda>x y. key x \<le> key y) (sort_key key (rev xs))"
    by (simp add: sorted_map)
  then show ?thesis
    by (simp add: sort_reverse_def sorted_wrt_rev)
qed

lemma sort_reverse_stable:
  "filter (\<lambda>x. key x = k) (sort_reverse key xs) = filter (\<lambda>x. key x = k) xs"
  by (simp add: sort_reverse_def rev_filter [symmetric] filter_sort [symmetric] sort_key_stable)

lemma set_sort_reverse: "set (sort_reverse key xs) = set xs"
  by (simp add: sort_reverse_def)

lemma length_sort_reverse: "length (sort_reverse key xs) = length xs"
  by (simp add: sort_reverse_def)

lemma set_section_results:
  "set (section_results sec ns) = {r. parse_section sec ns = Inr (Some r)}"
  by (auto simp: section_results_def split: sum.splits option.splits)

lemma set_parse_sections:
  "parse_sections secs ns = Inr rs \<Longrightarrow>
   r \<in> set rs \<longleftrightarrow> (\<exists>sec \<in> set secs. parse_section sec ns = Inr (Some r))"
  by (auto simp: parse_sections_eq set_sort_reverse set_section_results)

lemma parse_section_Some:
  assumes "parse_section sec ns = Inr (Some r)"
  shows "\<exists>ds. search_snippet sec = Some (snippet r) \<and> search_note_id sec = Some ds \<and>
              length ds \<le> int_max_str_digits \<and> digits_value ds < length ns \<and>
              source_note r = ns ! digits_value ds"
proof -
  from assms obtain snip where a: "search_snippet sec = Some snip"
    by (cases "search_snippet sec") (simp_all add: parse_section_def)
  from assms a obtain ds where b: "search_note_id sec = Some ds"
    by (cases "search_note_id sec") (simp_all add: parse_section_def)
  from assms a b have c: "py_int ds = Inr (digits_value ds)" and l: "length ds \<le> int_max_str_digits"
    by (simp_all add: parse_section_def py_int_def split: if_splits)
  from assms a b c have d: "digits_value ds < length ns"
    by (simp add: parse_section_def Let_def split: if_splits)
  from assms a b c d have "r = \<lparr>snippet = snip, source_note = ns ! digits_value ds,
       relevance_score = (case search_relevance sec of Some rs \<Rightarrow> py_float rs / 10 | None \<Rightarrow> 1 / 2)\<rparr>"
    by (simp add: parse_section_def Let_def)
  then have "snippet r = snip" "source_note r = ns ! digits_value ds" by simp_all
  with a b l d show ?thesis by simp
qed

lemma search_snippet_Some:
  assumes "search_snippet sec = Some b"
  shows "b \<noteq> [] \<and> dquote \<notin> set b \<and> sublist (dquote # b @ [dquote]) sec"
proof -
  from assms have "re_search match_quoted sec = Some b" by (simp add: search_snippet_def)
  from re_search_Some [OF this] obtain pre t where s: "sec = pre @ t" and m: "match_quoted t = Some b"
    by auto
  from m [unfolded match_quoted_Some] obtain rest where t: "t = dquote # b @ dquote # rest" and ne: "b \<noteq> []"
    and nq: "dquote \<notin> set b"
    by auto
  have "sec = pre @ (dquote # b @ [dquote]) @ rest" using s t by simp
  then have "sublist (dquote # b @ [dquote]) sec" unfolding sublist_def by (intro exI)
  with ne nq show ?thesis by simp
qed

lemma sections_of_sublist:
  assumes "sec \<in> set (sections_of response_text)"
  shows "sublist sec response_text"
proof -
  have "set (tl (split_str ''SNIPPET:'' response_text)) \<subseteq> set (split_str ''SNIPPET:'' response_text)"
    by (cases "split_str ''SNIPPET:'' response_text") auto
  with assms have "sec \<in> set (split_str ''SNIPPET:'' response_text)"
    by (auto simp: sections_of_def)
  then show ?thesis by (rule split_str_sublist)
qed

lemma section_results_malformed:
  assumes "search_snippet sec = None \<or> search_note_id sec = None \<or>
           (\<exists>ds. search_note_id sec = Some ds \<and> length notes \<le> digits_value ds)"
  shows "section_results sec notes = []"
proof -
  have "parse_section sec notes \<noteq> Inr (Some r)" for r
  proof
    assume "parse_section sec notes = Inr (Some r)"
    from parse_section_Some [OF this] obtain ds where
      "search_snippet sec = Some (snippet r)" "search_note_id sec = Some ds"
      "digits_value ds < length notes"
      by auto
    with assms show False by auto
  qed
  then show ?thesis
    by (auto simp: section_results_def split: sum.splits option.splits)
qed

section \<open>The parser on the concrete replies\<close>

lemmas parser_defs =
  parse_search_response_def sections_of_def parse_sections_def parse_section_def
  search_snippet_def search_note_id_def search_relevance_def match_labelled_digits_def
  dquote_def is_digit_def is_space_def py_int_def py_float_def digits_value_def
  digit_value_def int_max_str_digits_def sort_reverse_def

lemma tied_reply_parse:
  "parse_search_response tied_reply [example_note] =
     Inr [\<lparr>snippet = ''b'', source_note = example_note, relevance_score = 9 / 10\<rparr>,
          \<lparr>snippet = ''a'', source_note = example_note, relevance_score = 7 / 10\<rparr>,
          \<lparr>snippet = ''c'', source_note = example_note, relevance_score = 7 / 10\<rparr>]"
  by (simp add: tied_reply_def parser_defs)

lemma tied_reply_collect:
  "collect_results (sections_of tied_reply) [example_note] [] =
     Inr [\<lparr>snippet = ''a'', source_note = example_note, relevance_score = 7 / 10\<rparr>,
          \<lparr>snippet = ''b'', source_note = example_note, relevance_score = 9 / 10\<rparr>,
          \<lparr>snippet = ''c'', source_note = example_note, relevance_score = 7 / 10\<rparr>]"
  by (simp add: tied_reply_def parser_defs)

lemma scenario_section_parse:
  "parse_section scenario_section [example_note] =
     Inr (Some \<lparr>snippet = ''resident fell twice'', source_note = example_note,
                relevance_score = 9 / 10\<rparr>)"
  by (simp add: scenario_section_def parser_defs)

lemma scenario_section_relevance: "search_relevance scenario_section = Some ''9''"
  by (simp add: scenario_section_def parser_defs)

lemma scenario_reply_parse:
  "parse_search_response scenario_reply [example_note] =
     Inr [\<lparr>snippet = ''resident fell twice'', source_note = example_note,
           relevance_score = 9 / 10\<rparr>]"
  by (simp add: scenario_reply_def parser_defs)

lemma overrated_reply_parse:
  "parse_search_response overrated_reply [example_note] =
     Inr [\<lparr>snippet = ''x'', source_note = example_note, relevance_score = 3 / 2\<rparr>]"
  by (simp add: overrated_reply_def parser_defs)

lemma out_of_range_reply_sections:
  \<open>sections_of out_of_range_reply =
     ['' "a" NOTE_ID: NOTE_0 RELEVANCE: 8 ''] @
     '' "b" NOTE_ID: NOTE_5 RELEVANCE: 9 '' # ['' "c" NOTE_ID: NOTE_1 RELEVANCE: 7'']\<close>
  by (simp add: out_of_range_reply_def sections_of_def)

lemma out_of_range_section_note_id:
  \<open>search_note_id '' "b" NOTE_ID: NOTE_5 RELEVANCE: 9 '' = Some ''5''\<close>
  by (simp add: parser_defs)

lemma out_of_range_others:
  \<open>parse_sections (['' "a" NOTE_ID: NOTE_0 RELEVANCE: 8 ''] @ ['' "c" NOTE_ID: NOTE_1 RELEVANCE: 7''])
       [example_note, second_note] =
     Inr [\<lparr>snippet = ''a'', source_note = example_note, relevance_score = 8 / 10\<rparr>,
          \<lparr>snippet = ''c'', source_note = second_note, relevance_score = 7 / 10\<rparr>]\<close>
  by (simp add: parser_defs)

lemma second_note_reply_parse:
  "parse_search_response second_note_reply [example_note, second_note] = Inr [second_note_result]"
  by (simp add: second_note_reply_def second_note_result_def parser_defs)

lemma second_note_reply_sections:
  \<open>sections_of second_note_reply = ['' "c" NOTE_ID: NOTE_1 RELEVANCE: 7'']\<close>
  by (simp add: second_note_reply_def sections_of_def)

lemma second_note_section_note_id:
  \<open>search_note_id '' "c" NOTE_ID: NOTE_1 RELEVANCE: 7'' = Some ''1''\<close>
  by (simp add: parser_defs)

section \<open>Properties of the decimal rendering and of the call in the store\<close>

lemma of_char_digit_char: "d < 10 \<Longrightarrow> (of_char (digit_char d) :: nat) = 48 + d"
  by (simp add: digit_char_def)

lemma is_digit_digit_char: "d < 10 \<Longrightarrow> is_digit (digit_char d)"
  by (simp add: is_digit_def of_char_digit_char)

lemma digit_value_digit_char: "d < 10 \<Longrightarrow> digit_value (digit_char d) = d"
  by (simp add: digit_value_def of_char_digit_char)

lemma digits_value_snoc: "digits_value (ds @ [c]) = 10 * digits_value ds + digit_value c"
  by (simp add: digits_value_def)

lemma str_nat_nonempty: "str_nat n \<noteq> []"
  by (subst str_nat.simps) simp

lemma str_nat_digits: "list_all is_digit (str_nat n)"
proof (induction n rule: str_nat.induct)
  case (1 n)
  show ?case
  proof (cases "n < 10")
    case True
    then show ?thesis by (subst str_nat.simps) (simp add: is_digit_digit_char)
  next
    case False
    with "1.IH" have "list_all is_digit (str_nat (n div 10))" by simp
    with False show ?thesis by (subst str_nat.simps) (simp add: is_digit_digit_char)
  qed
qed

lemma digits_value_str_nat: "digits_value (str_nat n) = n"
proof (induction n rule: str_nat.induct)
  case (1 n)
  show ?case
  proof (cases "n < 10")
    case True
    then have "digits_value [digit_char n] = n"
      using digits_value_snoc [of "[]" "digit_char n"]
      by (simp add: digit_value_digit_char digits_value_def)
    with True show ?thesis by (subst str_nat.simps) simp
  next
    case False
    with "1.IH" have "digits_value (str_nat (n div 10)) = n div 10" by simp
    then have "digits_value (str_nat (n div 10) @ [digit_char (n mod 10)]) = n"
      by (simp add: digits_value_snoc digit_value_digit_char)
    with False show ?thesis by (subst str_nat.simps) simp
  qed
qed

lemma digit_char_zero: "d < 10 \<Longrightarrow> digit_char d = CHR ''0'' \<Longrightarrow> d = 0"
proof -
  assume d: "d < 10" and z: "digit_char d = CHR ''0''"
  from z have "(of_char (digit_char d) :: nat) = of_char CHR ''0''" by simp
  with d show "d = 0" by (simp add: of_char_digit_char)
qed

lemma str_nat_no_leading_zero: "hd (str_nat n) = CHR ''0'' \<Longrightarrow> n = 0"
proof (induction n rule: str_nat.induct)
  case (1 n)
  show ?case
  proof (cases "n < 10")
    case True
    with "1.prems" have "digit_char n = CHR ''0''" by (subst (asm) str_nat.simps) simp
    with True show ?thesis by (rule digit_char_zero)
  next
    case False
    with "1.prems" have "hd (str_nat (n div 10)) = CHR ''0''"
      by (subst (asm) str_nat.simps) (simp add: str_nat_nonempty)
    with "1.IH" False have "n div 10 = 0" by simp
    with False show ?thesis by simp
  qed
qed

lemma filter_by_note_type_call_frame:
  assumes v: "value_of st self = Some s"
  shows "\<exists>st'. filter_by_note_type_call st self t = Some (st', length (result_objects st)) \<and>
           value_of st' (length (result_objects st)) = Some (filter_by_note_type s t) \<and>
           take (length (result_objects st)) (result_objects st') = result_objects st \<and>
           take (length (list_objects st)) (list_objects st') = list_objects st \<and>
           object_results (result_objects st' ! length (result_objects st)) = length (list_objects st) \<and>
           value_of st' self = Some s"
proof -
  from v obtain ob where o: "deref (result_objects st) self = Some ob"
    by (cases "deref (result_objects st) self") (simp_all add: value_of_def)
  obtain q res lref summ where ob: "ob = SearchResultsObject q res lref summ"
    by (cases ob)
  from v o ob obtain rs where l: "deref (list_objects st) lref = Some rs"
    by (cases "deref (list_objects st) lref") (simp_all add: value_of_def)
  from v o ob l have s: "s = \<lparr>query = q, resident = res, results = rs, summary = summ\<rparr>"
    by (simp add: value_of_def)
  from o ob have sb: "self < length (result_objects st)"
    and so: "result_objects st ! self = SearchResultsObject q res lref summ"
    by (simp_all add: deref_def split: if_splits)
  from l have lb: "lref < length (list_objects st)" and lo: "list_objects st ! lref = rs"
    by (simp_all add: deref_def split: if_splits)
  let ?fr = "[r \<leftarrow> rs. note_type (source_note r) = t]"
  let ?new = "SearchResultsObject q res (length (list_objects st))
                (''Filtered results for '' @ NoteType_value t @ '': '' @
                 str_nat (length ?fr) @ '' notes found'')"
  let ?st' = "st\<lparr>list_objects := list_objects st @ [?fr],
               result_objects := result_objects st @ [?new]\<rparr>"
  have c: "filter_by_note_type_call st self t = Some (?st', length (result_objects st))"
    by (simp add: filter_by_note_type_call_def o ob l Let_def)
  have n: "value_of ?st' (length (result_objects st)) = Some (filter_by_note_type s t)"
    by (simp add: value_of_def deref_def filter_by_note_type_def s Let_def)
  have t1: "take (length (result_objects st)) (result_objects ?st') = result_objects st"
    by simp
  have t2: "take (length (list_objects st)) (list_objects ?st') = list_objects st"
    by simp
  have f: "object_results (result_objects ?st' ! length (result_objects st)) = length (list_objects st)"
    by simp
  have u: "value_of ?st' self = Some s"
    using sb so lb lo by (simp add: value_of_def deref_def nth_append s)
  from c n t1 t2 f u show ?thesis by (intro exI conjI)
qed

lemma mixed_store_value: "value_of mixed_store 0 = Some mixed_search_results"
  by (simp add: value_of_def deref_def mixed_store_def mixed_search_results_def)

lemma mixed_store_call:
  "filter_by_note_type_call mixed_store 0 NURSING = Some (filtered_store, 1)"
  by (simp add: filter_by_note_type_call_def deref_def mixed_store_def mixed_results_def
        filtered_store_def example_note_def second_note_def therapy_note_def Let_def
        str_nat.simps digit_char_def char_of_eq_iff)

lemma mixed_filtered_value:
  "filter_by_note_type mixed_search_results NURSING =
     \<lparr>query = ''find falls'', resident = None,
      results =
        [\<lparr>snippet = ''a'', source_note = example_note, relevance_score = 9 / 10\<rparr>,
         \<lparr>snippet = ''c'', source_note = second_note, relevance_score = 7 / 10\<rparr>],
      summary = ''Filtered results for Nursing: 2 notes found''\<rparr>"
  by (simp add: filter_by_note_type_def mixed_search_results_def mixed_results_def
        example_note_def second_note_def therapy_note_def Let_def
        str_nat.simps digit_char_def char_of_eq_iff)

section \<open>Properties of the keyword table\<close>






section \<open>The properties of the specification\<close>

subsection \<open>C1: the round trip never raises\<close>

text \<open>
  C1. For every query and every list of notes \<open>process_query\<close> returns a list and
  raises nothing; when the round trip to the generation service raises, it returns the
  empty list.
\<close>

theorem process_query_never_raises:
  "(\<exists>rs. process_query strftime generate_content qry notes = Inr rs) \<and>
   (\<forall>e. generate_content (create_search_prompt qry (prepare_context strftime notes)) = Inl e
        \<longrightarrow> process_query strftime generate_content qry notes = Inr [])"
  by (auto simp: process_query_def Let_def split: sum.splits)

theorem process_query_never_raises_witness:
  "(\<lambda>p. Inl (OtherException ''quota exceeded''))
       (create_search_prompt ''find falls'' (prepare_context (\<lambda>t f. f) [example_note]))
     = (Inl (OtherException ''quota exceeded'') :: py_exception + string) \<and>
   process_query (\<lambda>t f. f) (\<lambda>p. Inl (OtherException ''quota exceeded'')) ''find falls''
       [example_note] = Inr []"
  using process_query_never_raises
          [of "\<lambda>t f. f" "\<lambda>p. Inl (OtherException ''quota exceeded'')" "''find falls''"
              "[example_note]"]
  by simp

subsection \<open>C7: no notes, no extraction\<close>

text \<open>
  C7. When the note store returns the empty list for the resident and the lookback date,
  \<open>execute\<close> returns the query, no resident, no results and the summary
  "No clinical notes found for the specified time period.", and makes no call on the
  AI processor.
\<close>

theorem execute_no_notes:
  assumes "timedelta_days (lookback_days uc) = Inr delta"
    and "datetime_sub now delta = Inr since_date"
    and "find_by_resident_id (note_repository uc) rid (Some since_date) = Inr []"
  shows "execute uc now rid qry =
           Inr (\<lparr>query = qry, resident = None, results = [],
                 summary = ''No clinical notes found for the specified time period.''\<rparr>, [])"
  using assms by (simp add: execute_def)

theorem execute_no_notes_witness:
  "timedelta_days (lookback_days empty_store_use_case) = Inr 1209600000000 \<and>
   datetime_sub 63900000000000000 1209600000000 = Inr 63898790400000000 \<and>
   find_by_resident_id (note_repository empty_store_use_case) ''RES999''
       (Some 63898790400000000) = Inr [] \<and>
   execute empty_store_use_case 63900000000000000 ''RES999'' ''find falls'' =
     Inr (\<lparr>query = ''find falls'', resident = None, results = [],
           summary = ''No clinical notes found for the specified time period.''\<rparr>, [])"
proof -
  have a: "timedelta_days (lookback_days empty_store_use_case) = Inr 1209600000000"
    by (simp add: empty_store_use_case_def timedelta_days_def)
  have b: "datetime_sub 63900000000000000 1209600000000 = Inr 63898790400000000"
    by (simp add: datetime_sub_def datetime_max_def)
  have c: "find_by_resident_id (note_repository empty_store_use_case) ''RES999''
             (Some 63898790400000000) = Inr []"
    by (simp add: empty_store_use_case_def)
  show ?thesis
    using a b c execute_no_notes [OF a b c, of "''find falls''"] by simp
qed

subsection \<open>C9: filtering by note type\<close>

text \<open>
  C9. \<open>filter_by_note_type s t\<close> has as results the results of \<open>s\<close> whose source note
  has type \<open>t\<close>, in their order in \<open>s\<close>; its query and resident are those of \<open>s\<close>; its
  summary is "Filtered results for \<open>type\<close>: \<open>n\<close> notes found", where \<open>n\<close> is the number
  of results kept, written in decimal: a non-empty string of digits with the value \<open>n\<close>
  and no leading zero. In every store where a reference \<open>self\<close> holds \<open>s\<close>, the call
  returns a reference that the store did not have, behind which the new store holds
  \<open>filter_by_note_type s t\<close> with a list that the store did not have; every instance and
  every list of the old store is in the new store as it was, and \<open>self\<close> still holds
  \<open>s\<close>, with its query, resident, results and summary.
\<close>

theorem filter_by_note_type_spec:
  "results (filter_by_note_type s t) = filter (\<lambda>r. note_type (source_note r) = t) (results s) \<and>
   query (filter_by_note_type s t) = query s \<and>
   resident (filter_by_note_type s t) = resident s \<and>
   summary (filter_by_note_type s t) =
     ''Filtered results for '' @ NoteType_value t @ '': '' @
     str_nat (count (filter_by_note_type s t)) @ '' notes found'' \<and>
   str_nat (count (filter_by_note_type s t)) \<noteq> [] \<and>
   list_all is_digit (str_nat (count (filter_by_note_type s t))) \<and>
   digits_value (str_nat (count (filter_by_note_type s t))) = count (filter_by_note_type s t) \<and>
   (hd (str_nat (count (filter_by_note_type s t))) = CHR ''0'' \<longrightarrow>
      count (filter_by_note_type s t) = 0) \<and>
   (\<forall>st self. value_of st self = Some s \<longrightarrow>
      (\<exists>st'. filter_by_note_type_call st self t = Some (st', length (result_objects st)) \<and>
         value_of st' (length (result_objects st)) = Some (filter_by_note_type s t) \<and>
         take (length (result_objects st)) (result_objects st') = result_objects st \<and>
         take (length (list_objects st)) (list_objects st') = list_objects st \<and>
         object_results (result_objects st' ! length (result_objects st)) = length (list_objects st) \<and>
         value_of st' self = Some s))"
proof (intro conjI allI impI)
  show "results (filter_by_note_type s t) = filter (\<lambda>r. note_type (source_note r) = t) (results s)"
    by (simp add: filter_by_note_type_def Let_def)
  show "query (filter_by_note_type s t) = query s"
    by (simp add: filter_by_note_type_def Let_def)
  show "resident (filter_by_note_type s t) = resident s"
    by (simp add: filter_by_note_type_def Let_def)
  show "summary (filter_by_note_type s t) =
     ''Filtered results for '' @ NoteType_value t @ '': '' @
     str_nat (count (filter_by_note_type s t)) @ '' notes found''"
    by (simp add: filter_by_note_type_def count_def Let_def)
  show "str_nat (count (filter_by_note_type s t)) \<noteq> []"
    by (rule str_nat_nonempty)
  show "list_all is_digit (str_nat (count (filter_by_note_type s t)))"
    by (rule str_nat_digits)
  show "digits_value (str_nat (count (filter_by_note_type s t))) = count (filter_by_note_type s t)"
    by (rule digits_value_str_nat)
  show "count (filter_by_note_type s t) = 0"
    if "hd (str_nat (count (filter_by_note_type s t))) = CHR ''0''"
    using that by (rule str_nat_no_leading_zero)
  show "\<exists>st'. filter_by_note_type_call st self t = Some (st', length (result_objects st)) \<and>
         value_of st' (length (result_objects st)) = Some (filter_by_note_type s t) \<and>
         take (length (result_objects st)) (result_objects st') = result_objects st \<and>
         take (length (list_objects st)) (list_objects st') = list_objects st \<and>
         object_results (result_objects st' ! length (result_objects st)) = length (list_objects st) \<and>
         value_of st' self = Some s"
    if "value_of st self = Some s" for st self
    using that by (rule filter_by_note_type_call_frame)
qed

theorem filter_by_note_type_spec_witness:
  "value_of mixed_store 0 = Some mixed_search_results \<and>
   filter_by_note_type_call mixed_store 0 NURSING = Some (filtered_store, 1) \<and>
   value_of filtered_store 1 =
     Some \<lparr>query = ''find falls'', resident = None,
           results =
             [\<lparr>snippet = ''a'', source_note = example_note, relevance_score = 9 / 10\<rparr>,
              \<lparr>snippet = ''c'', source_note = second_note, relevance_score = 7 / 10\<rparr>],
           summary = ''Filtered results for Nursing: 2 notes found''\<rparr> \<and>
   value_of filtered_store 0 = Some mixed_search_results \<and>
   take 1 (result_objects filtered_store) = result_objects mixed_store \<and>
   take 1 (list_objects filtered_store) = list_objects mixed_store"
proof -
  have l1: "length (result_objects mixed_store) = 1" and l2: "length (list_objects mixed_store) = 1"
    by (simp_all add: mixed_store_def)
  from filter_by_note_type_spec [of mixed_search_results NURSING]
  have "\<forall>st self. value_of st self = Some mixed_search_results \<longrightarrow>
      (\<exists>st'. filter_by_note_type_call st self NURSING = Some (st', length (result_objects st)) \<and>
         value_of st' (length (result_objects st)) =
           Some (filter_by_note_type mixed_search_results NURSING) \<and>
         take (length (result_objects st)) (result_objects st') = result_objects st \<and>
         take (length (list_objects st)) (list_objects st') = list_objects st \<and>
         object_results (result_objects st' ! length (result_objects st)) = length (list_objects st) \<and>
         value_of st' self = Some mixed_search_results)"
    by (elim conjE)
  with mixed_store_value obtain st' where
    c: "filter_by_note_type_call mixed_store 0 NURSING = Some (st', length (result_objects mixed_store))" and
    n: "value_of st' (length (result_objects mixed_store)) =
          Some (filter_by_note_type mixed_search_results NURSING)" and
    t1: "take (length (result_objects mixed_store)) (result_objects st') = result_objects mixed_store" and
    t2: "take (length (list_objects mixed_store)) (list_objects st') = list_objects mixed_store" and
    u: "value_of st' 0 = Some mixed_search_results"
    by (elim allE [of _ mixed_store] allE [of _ "0::nat"] impE exE conjE)
  from c have e: "st' = filtered_store"
    by (simp add: mixed_store_call)
  from n e l1 have n': "value_of filtered_store 1 =
     Some \<lparr>query = ''find falls'', resident = None,
           results =
             [\<lparr>snippet = ''a'', source_note = example_note, relevance_score = 9 / 10\<rparr>,
              \<lparr>snippet = ''c'', source_note = second_note, relevance_score = 7 / 10\<rparr>],
           summary = ''Filtered results for Nursing: 2 notes found''\<rparr>"
    by (simp add: mixed_filtered_value)
  from t1 e l1 have t1': "take 1 (result_objects filtered_store) = result_objects mixed_store"
    by simp
  from t2 e l2 have t2': "take 1 (list_objects filtered_store) = list_objects mixed_store"
    by simp
  from u e have u': "value_of filtered_store 0 = Some mixed_search_results" by simp
  from mixed_store_value mixed_store_call n' u' t1' t2' show ?thesis by (intro conjI)
qed

subsection \<open>C2: a malformed section is skipped\<close>

text \<open>
  C2. The sections of a reply are the texts between its \<^verbatim>\<open>SNIPPET:\<close> tokens, the text
  before the first token dropped. A section in which the snippet pattern matches nowhere,
  or the note pattern matches nowhere, or the note pattern first matches digits whose
  value is not an index of the note list, adds no result; the loop returns what it
  returns on the other sections alone, and so does response parsing, which raises nothing.
\<close>

theorem malformed_section_skipped:
  assumes "sections_of response_text = before @ sec # after"
    and "search_snippet sec = None \<or> search_note_id sec = None \<or>
         (\<exists>ds. search_note_id sec = Some ds \<and> length notes \<le> digits_value ds)"
  shows "collect_results [sec] notes [] = Inr [] \<and>
         collect_results (before @ sec # after) notes [] = collect_results (before @ after) notes [] \<and>
         parse_search_response response_text notes = parse_sections (before @ after) notes \<and>
         (\<exists>rs. parse_search_response response_text notes = Inr rs)"
proof -
  have e: "section_results sec notes = []"
    using assms(2) by (rule section_results_malformed)
  have a: "collect_results [sec] notes [] = Inr []"
    by (simp only: collect_results_eq) (simp add: e)
  have b: "collect_results (before @ sec # after) notes [] = collect_results (before @ after) notes []"
    by (simp only: collect_results_eq) (simp add: e)
  have c: "parse_search_response response_text notes = parse_sections (before @ after) notes"
    by (simp add: parse_search_response_def assms(1) parse_sections_def b)
  have d: "\<exists>rs. parse_search_response response_text notes = Inr rs"
    by (simp add: parse_search_response_def parse_sections_eq)
  from a b c d show ?thesis by (intro conjI)
qed

theorem malformed_section_skipped_witness:
  \<open>sections_of out_of_range_reply =
     ['' "a" NOTE_ID: NOTE_0 RELEVANCE: 8 ''] @
     '' "b" NOTE_ID: NOTE_5 RELEVANCE: 9 '' # ['' "c" NOTE_ID: NOTE_1 RELEVANCE: 7''] \<and>
   search_note_id '' "b" NOTE_ID: NOTE_5 RELEVANCE: 9 '' = Some ''5'' \<and>
   length [example_note, second_note] \<le> digits_value ''5'' \<and>
   parse_search_response out_of_range_reply [example_note, second_note] =
     Inr [\<lparr>snippet = ''a'', source_note = example_note, relevance_score = 8 / 10\<rparr>,
          \<lparr>snippet = ''c'', source_note = second_note, relevance_score = 7 / 10\<rparr>]\<close>
proof -
  have l: "length [example_note, second_note] \<le> digits_value ''5''"
    by (simp add: digits_value_def digit_value_def)
  have h: \<open>search_snippet '' "b" NOTE_ID: NOTE_5 RELEVANCE: 9 '' = None \<or>
           search_note_id '' "b" NOTE_ID: NOTE_5 RELEVANCE: 9 '' = None \<or>
           (\<exists>ds. search_note_id '' "b" NOTE_ID: NOTE_5 RELEVANCE: 9 '' = Some ds \<and>
                 length [example_note, second_note] \<le> digits_value ds)\<close>
    using out_of_range_section_note_id l by (intro disjI2 exI [of _ "''5''"] conjI)
  from malformed_section_skipped [OF out_of_range_reply_sections h]
  have \<open>parse_search_response out_of_range_reply [example_note, second_note] =
        parse_sections (['' "a" NOTE_ID: NOTE_0 RELEVANCE: 8 ''] @ ['' "c" NOTE_ID: NOTE_1 RELEVANCE: 7''])
          [example_note, second_note]\<close>
    by (elim conjE)
  then have \<open>parse_search_response out_of_range_reply [example_note, second_note] =
     Inr [\<lparr>snippet = ''a'', source_note = example_note, relevance_score = 8 / 10\<rparr>,
          \<lparr>snippet = ''c'', source_note = second_note, relevance_score = 7 / 10\<rparr>]\<close>
    by (simp only: out_of_range_others)
  with out_of_range_reply_sections out_of_range_section_note_id l show ?thesis
    by (intro conjI)
qed

subsection \<open>C3: the results are sorted by relevance, highest first, and the sort is stable\<close>

text \<open>
  C3. Response parsing returns a list. Each result has a relevance score no higher than
  the one before it, and the results of one score stand in the order in which the loop
  extracted them, which is the order of their sections in the reply. Both facts hold
  of \<open>sort_reverse\<close> under any key into a linear order (\<open>sort_reverse_descending\<close>,
  \<open>sort_reverse_stable\<close>), so they do not depend on how the score is rounded.
\<close>

theorem parse_search_response_sorted_stable:
  "\<exists>extracted rs.
     extracted = concat (map (\<lambda>sec. section_results sec notes) (sections_of response_text)) \<and>
     collect_results (sections_of response_text) notes [] = Inr extracted \<and>
     parse_search_response response_text notes = Inr rs \<and>
     (\<forall>i. Suc i < length rs \<longrightarrow> relevance_score (rs ! Suc i) \<le> relevance_score (rs ! i)) \<and>
     (\<forall>k. filter (\<lambda>r. relevance_score r = k) rs = filter (\<lambda>r. relevance_score r = k) extracted)"
proof -
  let ?ex = "concat (map (\<lambda>sec. section_results sec notes) (sections_of response_text))"
  let ?rs = "sort_reverse relevance_score ?ex"
  have c: "collect_results (sections_of response_text) notes [] = Inr ?ex"
    by (simp add: collect_results_eq)
  have p: "parse_search_response response_text notes = Inr ?rs"
    by (simp add: parse_search_response_def parse_sections_eq)
  have "sorted_wrt (\<lambda>x y. relevance_score y \<le> relevance_score x) ?rs"
    by (rule sort_reverse_descending)
  then have d: "\<forall>i. Suc i < length ?rs \<longrightarrow> relevance_score (?rs ! Suc i) \<le> relevance_score (?rs ! i)"
    by (simp add: sorted_wrt_iff_nth_less)
  have st: "\<forall>k. filter (\<lambda>r. relevance_score r = k) ?rs = filter (\<lambda>r. relevance_score r = k) ?ex"
    by (simp add: sort_reverse_stable)
  from c p d st show ?thesis by blast
qed

theorem parse_search_response_sorted_stable_witness:
  "\<exists>extracted rs.
     collect_results (sections_of tied_reply) [example_note] [] = Inr extracted \<and>
     parse_search_response tied_reply [example_note] = Inr rs \<and>
     map snippet extracted = [''a'', ''b'', ''c''] \<and>
     map snippet rs = [''b'', ''a'', ''c''] \<and>
     Suc 1 < length rs \<and>
     relevance_score (rs ! Suc 1) \<le> relevance_score (rs ! 1) \<and>
     filter (\<lambda>r. relevance_score r = 7 / 10) rs = filter (\<lambda>r. relevance_score r = 7 / 10) extracted"
proof -
  obtain extracted rs where
    c: "collect_results (sections_of tied_reply) [example_note] [] = Inr extracted" and
    p: "parse_search_response tied_reply [example_note] = Inr rs" and
    d: "\<forall>i. Suc i < length rs \<longrightarrow> relevance_score (rs ! Suc i) \<le> relevance_score (rs ! i)" and
    st: "\<forall>k. filter (\<lambda>r. relevance_score r = k) rs = filter (\<lambda>r. relevance_score r = k) extracted"
    using parse_search_response_sorted_stable [of "[example_note]" tied_reply] by blast
  from c have ex: "map snippet extracted = [''a'', ''b'', ''c'']"
    by (auto simp: tied_reply_collect)
  from p have rs: "map snippet rs = [''b'', ''a'', ''c''] \<and> Suc 1 < length rs"
    by (auto simp: tied_reply_parse)
  from rs d have le: "relevance_score (rs ! Suc 1) \<le> relevance_score (rs ! 1)" by blast
  show ?thesis
    apply (rule exI [of _ extracted])
    apply (rule exI [of _ rs])
    using c p ex rs le st [THEN spec, of "7 / 10"] apply simp
    done
qed

subsection \<open>C4: the relevance score of a section\<close>

text \<open>
  C4. A section that yields a result gives it the score \<open>n / 10\<close>, where \<open>n\<close> is the
  value of the digits of the first match of \<^verbatim>\<open>RELEVANCE:\s*(\d+)\<close> in the section, and
  the score \<open>1 / 2\<close> when the pattern matches nowhere in the section.
\<close>

theorem relevance_score_of_section:
  assumes "parse_section sec notes = Inr (Some r)"
  shows "relevance_score r =
           (case search_relevance sec of
              Some ds \<Rightarrow> of_nat (digits_value ds) / 10
            | None \<Rightarrow> 1 / 2)"
  using assms
  by (auto simp: parse_section_def py_float_def Let_def split: option.splits sum.splits if_splits)

theorem relevance_score_of_section_witness:
  "parse_section scenario_section [example_note] =
     Inr (Some \<lparr>snippet = ''resident fell twice'', source_note = example_note,
                relevance_score = 9 / 10\<rparr>) \<and>
   search_relevance scenario_section = Some ''9'' \<and>
   relevance_score \<lparr>snippet = ''resident fell twice'', source_note = example_note,
                    relevance_score = 9 / 10\<rparr> = of_nat (digits_value ''9'') / 10"
  using relevance_score_of_section [OF scenario_section_parse]
    scenario_section_parse scenario_section_relevance
  by simp

subsection \<open>C10: the parser has no cap on the number of results\<close>

text \<open>
  C10. A reply of six well-formed sections, each naming the one note of the list, parses
  to six results: the limit of five is an instruction of the prompt only.
\<close>

theorem parser_has_no_cap:
  "parse_search_response six_snippet_reply [example_note] =
     Inr [\<lparr>snippet = ''a'', source_note = example_note, relevance_score = 9 / 10\<rparr>,
          \<lparr>snippet = ''b'', source_note = example_note, relevance_score = 8 / 10\<rparr>,
          \<lparr>snippet = ''c'', source_note = example_note, relevance_score = 7 / 10\<rparr>,
          \<lparr>snippet = ''d'', source_note = example_note, relevance_score = 6 / 10\<rparr>,
          \<lparr>snippet = ''e'', source_note = example_note, relevance_score = 5 / 10\<rparr>,
          \<lparr>snippet = ''f'', source_note = example_note, relevance_score = 4 / 10\<rparr>]"
  by (simp add: six_snippet_reply_def parser_defs)

subsection \<open>C5: the range of the relevance score\<close>

text \<open>
  C5, as stated: every result of response parsing has a relevance score between 0 and 1.
  The parser does not bound the digits after \<^verbatim>\<open>RELEVANCE:\<close>: the reply below rates its
  snippet 15 and the result has the score \<open>3 / 2\<close>.
\<close>

theorem relevance_score_above_one_counterexample:
  "parse_search_response overrated_reply [example_note] =
     Inr [\<lparr>snippet = ''x'', source_note = example_note, relevance_score = 3 / 2\<rparr>] \<and>
   \<not> relevance_score \<lparr>snippet = ''x'', source_note = example_note, relevance_score = 3 / 2\<rparr> \<le> 1"
  using overrated_reply_parse by simp

text \<open>
  C5, amended. Every result of response parsing has a relevance score of at least 0.
  It comes from a section of the reply, and its score is at most 1 exactly when that
  section has no match of \<^verbatim>\<open>RELEVANCE:\s*(\d+)\<close> or the digits of its first match have a
  value of at most 10.
\<close>

theorem relevance_score_bounds:
  assumes "parse_search_response response_text notes = Inr rs" and "r \<in> set rs"
  shows "0 \<le> relevance_score r \<and>
         (\<exists>sec \<in> set (sections_of response_text).
            parse_section sec notes = Inr (Some r) \<and>
            (relevance_score r \<le> 1 \<longleftrightarrow>
               (case search_relevance sec of
                  None \<Rightarrow> True
                | Some ds \<Rightarrow> digits_value ds \<le> 10)))"
proof -
  from assms obtain sec where sec: "sec \<in> set (sections_of response_text)"
    and ps: "parse_section sec notes = Inr (Some r)"
    unfolding parse_search_response_def by (auto simp: set_parse_sections)
  have sc: "relevance_score r =
           (case search_relevance sec of
              Some ds \<Rightarrow> of_nat (digits_value ds) / 10
            | None \<Rightarrow> 1 / 2)"
    using ps
    by (auto simp: parse_section_def py_float_def Let_def split: option.splits sum.splits if_splits)
  have nonneg: "0 \<le> relevance_score r"
    using sc by (simp split: option.splits)
  have le: "relevance_score r \<le> 1 \<longleftrightarrow>
               (case search_relevance sec of
                  None \<Rightarrow> True
                | Some ds \<Rightarrow> digits_value ds \<le> 10)"
  proof (cases "search_relevance sec")
    case None
    with sc show ?thesis by simp
  next
    case (Some ds)
    with sc have eq: "relevance_score r = of_nat (digits_value ds) / 10" by simp
    show ?thesis by (simp add: eq Some)
  qed
  from sec ps le have "\<exists>sec \<in> set (sections_of response_text).
            parse_section sec notes = Inr (Some r) \<and>
            (relevance_score r \<le> 1 \<longleftrightarrow>
               (case search_relevance sec of
                  None \<Rightarrow> True
                | Some ds \<Rightarrow> digits_value ds \<le> 10))"
    by (intro bexI [of _ sec] conjI)
  with nonneg show ?thesis by (rule conjI)
qed

theorem relevance_score_bounds_witness:
  "parse_search_response scenario_reply [example_note] =
     Inr [\<lparr>snippet = ''resident fell twice'', source_note = example_note,
           relevance_score = 9 / 10\<rparr>] \<and>
   \<lparr>snippet = ''resident fell twice'', source_note = example_note, relevance_score = 9 / 10\<rparr>
     \<in> set [\<lparr>snippet = ''resident fell twice'', source_note = example_note,
               relevance_score = 9 / 10\<rparr>] \<and>
   0 \<le> relevance_score \<lparr>snippet = ''resident fell twice'', source_note = example_note,
                         relevance_score = 9 / 10\<rparr>"
proof -
  let ?r = "\<lparr>snippet = ''resident fell twice'', source_note = example_note,
             relevance_score = 9 / 10\<rparr>"
  have m: "?r \<in> set [?r]" by simp
  from relevance_score_bounds [OF scenario_reply_parse m]
  have "0 \<le> relevance_score ?r" by (rule conjunct1)
  with scenario_reply_parse m show ?thesis by (intro conjI)
qed

subsection \<open>C6: the snippet and its source note\<close>

text \<open>
  C6, as stated: every result has a non-empty snippet that is a substring of the content
  of its source note. The parser never compares the snippet with the note: the reply of
  the scenario names note 0, whose content does not contain the quoted text.
\<close>

theorem snippet_not_in_note_counterexample:
  "parse_search_response scenario_reply [example_note] =
     Inr [\<lparr>snippet = ''resident fell twice'', source_note = example_note,
           relevance_score = 9 / 10\<rparr>] \<and>
   \<not> contains
       (content (source_note \<lparr>snippet = ''resident fell twice'', source_note = example_note,
                              relevance_score = 9 / 10\<rparr>))
       (snippet \<lparr>snippet = ''resident fell twice'', source_note = example_note,
                 relevance_score = 9 / 10\<rparr>)"
  using scenario_reply_parse by (simp add: example_note_def)

text \<open>
  C6, amended. Every result of response parsing has a non-empty snippet without a double
  quote, and the snippet stands between double quotes in the reply. The result comes
  from a section of the reply: its snippet is the first match of the snippet pattern in
  that section, and its source note is the note of the list at the index that the first
  match of the note pattern in that section names, which is an index of the list. The
  snippet is not compared with the content of the note.
\<close>

theorem snippet_from_reply:
  assumes "parse_search_response response_text notes = Inr rs" and "r \<in> set rs"
  shows "snippet r \<noteq> [] \<and> dquote \<notin> set (snippet r) \<and>
         contains response_text (dquote # snippet r @ [dquote]) \<and>
         source_note r \<in> set notes \<and>
         (\<exists>sec ds. sec \<in> set (sections_of response_text) \<and>
            parse_section sec notes = Inr (Some r) \<and>
            search_snippet sec = Some (snippet r) \<and>
            search_note_id sec = Some ds \<and>
            digits_value ds < length notes \<and>
            source_note r = notes ! digits_value ds)"
proof -
  from assms obtain sec where sec: "sec \<in> set (sections_of response_text)"
    and ps: "parse_section sec notes = Inr (Some r)"
    unfolding parse_search_response_def by (auto simp: set_parse_sections)
  from parse_section_Some [OF ps] obtain ds where
    sn: "search_snippet sec = Some (snippet r)" and
    ni: "search_note_id sec = Some ds" and
    ix: "digits_value ds < length notes" and src: "source_note r = notes ! digits_value ds"
    by auto
  from search_snippet_Some [OF sn] have ne: "snippet r \<noteq> []" and nq: "dquote \<notin> set (snippet r)"
    and sub: "sublist (dquote # snippet r @ [dquote]) sec" by simp_all
  from sub sections_of_sublist [OF sec]
  have "sublist (dquote # snippet r @ [dquote]) response_text"
    by (rule sublist_order.order_trans)
  then have c: "contains response_text (dquote # snippet r @ [dquote])"
    by (simp add: contains_iff_sublist)
  have m: "source_note r \<in> set notes" using ix src by simp
  have e: "\<exists>sec ds. sec \<in> set (sections_of response_text) \<and>
            parse_section sec notes = Inr (Some r) \<and>
            search_snippet sec = Some (snippet r) \<and>
            search_note_id sec = Some ds \<and>
            digits_value ds < length notes \<and>
            source_note r = notes ! digits_value ds"
    using sec ps sn ni ix src by (intro exI conjI)
  from ne nq c m e show ?thesis by (intro conjI)
qed

theorem snippet_from_reply_witness:
  \<open>parse_search_response second_note_reply [example_note, second_note] = Inr [second_note_result] \<and>
   second_note_result \<in> set [second_note_result] \<and>
   sections_of second_note_reply = ['' "c" NOTE_ID: NOTE_1 RELEVANCE: 7''] \<and>
   search_note_id '' "c" NOTE_ID: NOTE_1 RELEVANCE: 7'' = Some ''1'' \<and>
   source_note second_note_result = [example_note, second_note] ! digits_value ''1'' \<and>
   [example_note, second_note] ! digits_value ''1'' = second_note \<and>
   snippet second_note_result = ''c'' \<and>
   contains second_note_reply (dquote # snippet second_note_result @ [dquote])\<close>
proof -
  have m: "second_note_result \<in> set [second_note_result]" by simp
  note t = snippet_from_reply [OF second_note_reply_parse m]
  from t have c: "contains second_note_reply (dquote # snippet second_note_result @ [dquote])"
    by (elim conjE)
  from t obtain sec ds where
    sec: "sec \<in> set (sections_of second_note_reply)" and
    ni: "search_note_id sec = Some ds" and
    src: "source_note second_note_result = [example_note, second_note] ! digits_value ds"
    by (elim conjE exE)
  from sec have \<open>sec = '' "c" NOTE_ID: NOTE_1 RELEVANCE: 7''\<close>
    by (simp add: second_note_reply_sections)
  with ni have "ds = ''1''"
    by (simp add: second_note_section_note_id)
  with src have s: "source_note second_note_result = [example_note, second_note] ! digits_value ''1''"
    by simp
  have n: "[example_note, second_note] ! digits_value ''1'' = second_note"
    by (simp add: digits_value_def digit_value_def)
  have sn: "snippet second_note_result = ''c''"
    by (simp add: second_note_result_def)
  from second_note_reply_parse m second_note_reply_sections second_note_section_note_id s n sn c
  show ?thesis by (intro conjI)
qed

subsection \<open>C8: the summary\<close>



end
